theory Spec2Isabelle
  imports Main "HOL-Library.Word"
begin

unbundle bit_operations_syntax

section \<open>PN532 driver over SPI (firmware/src/lib/pn532.c)\<close>

text \<open>
  The driver talks to the chip through three collaborators that are not part of the file:
  the SPI transfer functions, the chip-select pin and the task delay.  They are modelled as
  operations on a record that holds the pin level, the replies the chip will give to the
  coming SPI reads, and a trace of everything the driver does to the outside.  The driver's
  own functions are translated one by one on top of them, C integers of type
  \<open>uint8_t\<close> as \<open>8 word\<close>, \<open>int\<close> as \<open>int\<close>.
\<close>

type_synonym u8 = "8 word"
type_synonym u16 = "16 word"
type_synonym u32 = "32 word"

subsection \<open>The hardware side\<close>

datatype event =
    Gpio_put bool
  | Sleep_ms nat
  | Spi_write "u8 list"
  | Spi_read nat "u8 list"
  | Wait_loop_call
  | Printf_hex u8

text \<open>
  \<open>wait_loop\<close>: the static function pointer of the same name is not NULL.
  \<open>nss\<close>: level of the chip-select pin (\<open>True\<close> is 1, released; \<open>False\<close> is 0,
  asserted).
  \<open>miso\<close>: for each coming call of \<open>spi_read_blocking\<close>, the raw bytes the transport
  has for it.
  \<open>junk\<close>: the indeterminate bytes found in a stack array that has not been written.
  \<open>tight\<close>: the sizes \<open>n\<close> for which the compiler has put a local array of \<open>n\<close> bytes
  right in front of an object in use; behind an array of any other size the next byte of
  the stack frame is unused.
  \<open>trace\<close>: the pin writes, delays, transfers and callback invocations so far, oldest
  first.
\<close>

record link =
  wait_loop :: bool
  nss :: bool
  miso :: "u8 list list"
  junk :: "u8 list"
  tight :: "nat list"
  trace :: "event list"

definition emit :: "event \<Rightarrow> link \<Rightarrow> link" where
  "emit e l = l\<lparr>trace := trace l @ [e]\<rparr>"

text \<open>
  Modelled from the spec: \<open>gpio_put\<close> on the chip-select pin, the control line of
  section 6, and the delay primitive \<open>vTaskDelay\<close> behind \<open>sleep_ms_rtos\<close>.  A pin write
  sets the level; both leave their mark in the trace.
\<close>

definition gpio_put :: "bool \<Rightarrow> link \<Rightarrow> link" where
  "gpio_put v l = emit (Gpio_put v) (l\<lparr>nss := v\<rparr>)"

definition sleep_ms_rtos :: "nat \<Rightarrow> link \<Rightarrow> link" where
  "sleep_ms_rtos ms l = emit (Sleep_ms ms) l"

text \<open>
  Modelled from the spec: \<open>spi_write_blocking\<close> and \<open>spi_read_blocking\<close>, the transport
  of section 6 (\<open>write(bytes) -> count\<close>, \<open>read(len) -> bytes\<close>).  A write sends the first
  \<open>len\<close> bytes of the source and returns their number.  A read of \<open>len\<close> bytes takes the
  next reply of the chip, stores at most \<open>len\<close> bytes of it at the start of the
  destination and returns how many it stored; what the reply holds beyond \<open>len\<close> is
  dropped, and the rest of the destination keeps its contents.
\<close>

definition spi_write_blocking :: "u8 list \<Rightarrow> nat \<Rightarrow> link \<Rightarrow> int \<times> link" where
  "spi_write_blocking src len l = (int len, emit (Spi_write (take len src)) l)"

definition spi_read_blocking :: "u8 list \<Rightarrow> nat \<Rightarrow> link \<Rightarrow> int \<times> u8 list \<times> link" where
  "spi_read_blocking dst len l =
     (case miso l of
        [] \<Rightarrow> (0, dst, emit (Spi_read len []) l)
      | r # rs \<Rightarrow>
          (let got = take len r
           in (int (length got), got @ drop (length got) dst,
               emit (Spi_read len got) (l\<lparr>miso := rs\<rparr>))))"

text \<open>A stack array of \<open>n\<close> bytes before anything is stored in it.\<close>

definition uninit :: "nat \<Rightarrow> link \<Rightarrow> u8 list" where
  "uninit n l = take n (junk l @ replicate n 0)"

text \<open>\<open>memcpy (dst, src, n)\<close> and \<open>memmove\<close>, for \<open>n\<close> within both arrays.\<close>

definition memcpy :: "u8 list \<Rightarrow> u8 list \<Rightarrow> nat \<Rightarrow> u8 list" where
  "memcpy dst src n = take n src @ drop n dst"

subsection \<open>Constants\<close>

definition PN532_PREAMBLE :: u8 where "PN532_PREAMBLE = 0"
definition PN532_STARTCODE1 :: u8 where "PN532_STARTCODE1 = 0"
definition PN532_STARTCODE2 :: u8 where "PN532_STARTCODE2 = 0xff"
definition PN532_POSTAMBLE :: u8 where "PN532_POSTAMBLE = 0"
definition PN532_HOSTTOPN532 :: u8 where "PN532_HOSTTOPN532 = 0xd4"
definition PN532_PN532TOHOST :: u8 where "PN532_PN532TOHOST = 0xd5"
definition STATUS_READ :: u8 where "STATUS_READ = 2"
definition DATA_WRITE :: u8 where "DATA_WRITE = 1"
definition DATA_READ :: u8 where "DATA_READ = 3"

subsection \<open>Bit order and raw transfers\<close>

definition pn532_set_wait_loop :: "bool \<Rightarrow> link \<Rightarrow> link" where
  "pn532_set_wait_loop loop l = l\<lparr>wait_loop := loop\<rparr>"

text \<open>
  \<open>reverse_step x y i\<close> is one round of the loop of \<open>reverse_bit\<close>: it sets bit
  \<open>8 - i - 1\<close> of \<open>y\<close> when bit \<open>i\<close> of \<open>x\<close> is set.  The loop runs it for
  \<open>i = 0 .. 7\<close> from \<open>y = 0\<close>.
\<close>

definition reverse_step :: "u8 \<Rightarrow> u8 \<Rightarrow> nat \<Rightarrow> u8" where
  "reverse_step x y i = (if x AND push_bit i 1 \<noteq> 0 then y OR push_bit (8 - i - 1) 1 else y)"

definition reverse_bit :: "u8 \<Rightarrow> u8" where
  "reverse_bit x = foldl (reverse_step x) 0 [0..<8]"

definition pn532_write :: "u8 list \<Rightarrow> u8 \<Rightarrow> link \<Rightarrow> int \<times> link" where
  "pn532_write data len l =
     (let buffer = reverse_bit DATA_WRITE # map reverse_bit (take (unat len) data);
          l1 = sleep_ms_rtos 2 (gpio_put False l);
          (result, l2) = spi_write_blocking buffer (unat len + 1) l1;
          l3 = sleep_ms_rtos 2 (gpio_put True l2)
      in (result, l3))"

definition pn532_begin_read :: "u8 \<Rightarrow> link \<Rightarrow> link" where
  "pn532_begin_read mode l =
     (let l1 = sleep_ms_rtos 2 (gpio_put False l);
          mode_data = [reverse_bit mode]
      in snd (spi_write_blocking mode_data 1 l1))"

definition pn532_do_read :: "u8 list \<Rightarrow> u8 \<Rightarrow> link \<Rightarrow> int \<times> u8 list \<times> link" where
  "pn532_do_read data len l =
     (let (result, data1, l1) = spi_read_blocking data (unat len) l
      in (result, map reverse_bit (take (unat len) data1) @ drop (unat len) data1, l1))"

definition pn532_end_read :: "link \<Rightarrow> link" where
  "pn532_end_read l = sleep_ms_rtos 2 (gpio_put True l)"

subsection \<open>Handshake\<close>

text \<open>
  The body of the \<open>for\<close> loop of \<open>pn532_wait_ready\<close> in its two halves.
  \<open>status_poll\<close> is the bracketed read of one status byte into \<open>status\<close> (set to 0
  before) together with the test \<open>result == 1 && status == 0x01\<close>.  \<open>idle_step\<close> is what
  follows a failed test: the callback if one is registered, then the delay of 1 ms.  The
  callback is the caller's code; it must not call the driver, so all the model keeps of
  an invocation is its place in the trace.
\<close>

definition status_poll :: "link \<Rightarrow> bool \<times> link" where
  "status_poll l =
     (let l1 = pn532_begin_read STATUS_READ l;
          (result, status, l2) = pn532_do_read [0] 1 l1;
          l3 = pn532_end_read l2
      in (result = 1 \<and> hd status = 0x01, l3))"

definition idle_step :: "link \<Rightarrow> link" where
  "idle_step l = sleep_ms_rtos 1 (if wait_loop l then emit Wait_loop_call l else l)"

text \<open>The loop entered with the counter at \<open>retry\<close>.\<close>

function wait_ready_from :: "nat \<Rightarrow> link \<Rightarrow> bool \<times> link" where
  "wait_ready_from retry l =
     (if retry < 30 then
        (let (ready, l3) = status_poll l
         in if ready then (True, l3) else wait_ready_from (retry + 1) (idle_step l3))
      else (False, l))"
  by pat_completeness auto
termination
  by (relation "measure (\<lambda>(retry, l). 30 - retry)") auto

declare wait_ready_from.simps [simp del]

definition pn532_wait_ready :: "link \<Rightarrow> bool \<times> link" where
  "pn532_wait_ready l = wait_ready_from 0 l"

definition read_frame :: "u8 list \<Rightarrow> u8 \<Rightarrow> link \<Rightarrow> int \<times> u8 list \<times> link" where
  "read_frame frame len l = pn532_do_read frame len l"

definition write_frame :: "u8 list \<Rightarrow> u8 \<Rightarrow> link \<Rightarrow> int \<times> link" where
  "write_frame frame len l = pn532_write frame len l"

definition expect_ack :: "u8 list" where
  "expect_ack = [0, 0, 0xff, 0, 0xff, 0]"

definition read_ack :: "link \<Rightarrow> bool \<times> link" where
  "read_ack l =
     (let resp = uninit 6 l;
          (ready, l1) = pn532_wait_ready l
      in if \<not> ready then (False, l1)
         else
           (let l2 = pn532_begin_read DATA_READ l1;
                (r, resp1, l3) = read_frame resp 6 l2;
                l4 = pn532_end_read l3
            in if take 6 resp1 \<noteq> expect_ack then (False, l4) else (True, l4)))"

subsection \<open>Stores outside an array\<close>

text \<open>
  Two places of the file store outside an array, and from there on C gives the program
  no behaviour.  A function that gets there has no result in the model; the value says
  which store it was.
  \<open>Store_beyond_array\<close>: the loop of \<open>pn532_read_data\<close> stores \<open>len + 1\<close> bytes, the
  checksum byte last, and \<open>pn532_read_response\<close> gives it an array of \<open>len\<close> bytes: the
  checksum byte goes to the byte behind the array.  Where the stack frame has an unused
  byte there, nothing in use is changed and the program goes on as written; where the
  array's size is among \<open>tight\<close>, the byte belongs to another object.
  \<open>Memmove_beyond_array\<close>: \<open>pn532_felica_command\<close> calls \<open>memmove\<close> with the length
  \<open>-1\<close>.
\<close>

datatype fault = Store_beyond_array | Memmove_beyond_array

subsection \<open>Frame codec\<close>

text \<open>
  The local array \<open>frame\<close> of \<open>pn532_write_data\<close> (\<open>7 + len\<close> bytes) as it stands when
  it is handed to \<open>write_frame\<close>.  The checksum variable starts at \<open>0xff\<close> and adds each
  payload byte modulo 256; \<open>~len + 1\<close> and \<open>~checksum\<close> are stored in a byte.
\<close>

definition write_data_frame :: "u8 list \<Rightarrow> u8 \<Rightarrow> u8 list" where
  "write_data_frame data len =
     (let checksum = foldl (+) 0xff (take (unat len) data)
      in [PN532_PREAMBLE, PN532_STARTCODE1, PN532_STARTCODE2, len, NOT len + 1]
         @ take (unat len) data @ [NOT checksum, PN532_POSTAMBLE])"

text \<open>
  \<open>write_frame\<close> takes its length as \<open>uint8_t\<close>: the \<open>int\<close> value \<open>7 + len\<close> is
  reduced modulo 256 at the call.  The result is that of \<open>read_ack\<close>, a \<open>bool\<close>
  returned as \<open>int\<close>.
\<close>

definition pn532_write_data :: "u8 list \<Rightarrow> u8 \<Rightarrow> link \<Rightarrow> int \<times> link" where
  "pn532_write_data data len l =
     (let frame = write_data_frame data len;
          (w, l1) = write_frame frame (word_of_nat (7 + unat len)) l;
          (ack, l2) = read_ack l1
      in (if ack then 1 else 0, l2))"

text \<open>
  \<open>read_frame\<close> takes its length as \<open>uint8_t\<close> too, so it is asked for
  \<open>(len + 2) mod 256\<close> bytes, while the array \<open>resp\<close> and the comparison with the result
  use the \<open>int\<close> value \<open>len + 2\<close>.  The loop runs for \<open>i = 0 .. len\<close> and so stores
  \<open>len + 1\<close> bytes in \<open>data\<close>: the payload and the checksum byte after it.  \<open>data\<close> is
  the caller's array, as long as the list.  If the array has \<open>len + 1\<close> bytes or more, all
  stores are inside it.  If it has \<open>len\<close> bytes, the last store is one byte behind it and
  the size decides (\<open>tight\<close>); the array itself then holds the payload.  The stores come
  before the test of the checksum.
\<close>

definition pn532_read_data ::
  "u8 list \<Rightarrow> u8 \<Rightarrow> link \<Rightarrow> fault + int \<times> u8 list \<times> link" where
  "pn532_read_data data len l =
     (let resp = uninit (unat len + 2) l;
          (result, resp1, l1) = read_frame resp (word_of_nat (unat len + 2)) l
      in if result \<noteq> int (unat len + 2) then Inr (- 1, data, l1)
         else if length data < unat len
                 \<or> (length data = unat len \<and> unat len \<in> set (tight l))
         then Inl Store_beyond_array
         else
           (let data1 = take (length data) (memcpy data resp1 (unat len + 1));
                checksum = foldl (+) (0 :: u8) (take (unat len + 1) resp1)
            in if checksum \<noteq> 0 then Inr (- 1, data1, l1)
               else if resp1 ! (unat len + 1) \<noteq> PN532_POSTAMBLE then Inr (- 1, data1, l1)
               else Inr (uint len, data1, l1)))"

definition pn532_write_command :: "u8 \<Rightarrow> u8 list \<Rightarrow> u8 \<Rightarrow> link \<Rightarrow> int \<times> link" where
  "pn532_write_command cmd param len l =
     (let data = [PN532_HOSTTOPN532, cmd] @ take (unat len) param
      in pn532_write_data data (word_of_nat (unat len + 2)) l)"

definition pn532_peak_response_len :: "link \<Rightarrow> int \<times> link" where
  "pn532_peak_response_len l =
     (let buf = uninit 5 l;
          (r, buf1, l1) = pn532_do_read buf 5 l
      in if buf1 ! 0 \<noteq> PN532_PREAMBLE \<or> buf1 ! 1 \<noteq> PN532_STARTCODE1
            \<or> buf1 ! 2 \<noteq> PN532_STARTCODE2 then (- 1, l1)
         else
           (let length = buf1 ! 3;
                length_check = length + buf1 ! 4
            in if length_check \<noteq> 0 then (- 1, l1) else (uint (buf1 ! 3), l1)))"

subsection \<open>Command and response exchange\<close>

text \<open>
  \<open>resp\<close> is the caller's buffer as it is before the call; the second component of the
  result is the buffer after it.  The local array \<open>data\<close> has \<open>real_len\<close> bytes and
  \<open>pn532_read_data\<close> is called with the same length, so every frame that is read in full
  has its checksum byte stored behind the array.  The comparison \<open>data[1] != cmd + 1\<close> is
  made on \<open>int\<close>.  The two early returns after the header peek come before
  \<open>pn532_end_read\<close>.
\<close>

definition pn532_read_response ::
  "u8 \<Rightarrow> u8 list \<Rightarrow> u8 \<Rightarrow> link \<Rightarrow> fault + int \<times> u8 list \<times> link" where
  "pn532_read_response cmd resp len l =
     (let (ready, l1) = pn532_wait_ready l
      in if \<not> ready then Inr (- 1, resp, l1)
         else
           (let l2 = pn532_begin_read DATA_READ l1;
                (real_len, l3) = pn532_peak_response_len l2
            in if real_len < 0 then Inr (- 1, resp, l3)
               else if real_len < 2 then Inr (- 1, resp, l3)
               else
                 (let data = uninit (nat real_len) l3
                  in case pn532_read_data data (word_of_int real_len) l3 of
                       Inl f \<Rightarrow> Inl f
                     | Inr (ret, data1, l4) \<Rightarrow>
                         (let l5 = pn532_end_read l4
                          in if ret \<noteq> real_len \<or> data1 ! 0 \<noteq> PN532_PN532TOHOST
                                \<or> uint (data1 ! 1) \<noteq> uint cmd + 1 then Inr (- 1, resp, l5)
                             else
                               (let data_len = real_len - 2
                                in if data_len > uint len then Inr (- 1, resp, l5)
                                   else if data_len \<le> 0 then Inr (- 1, resp, l5)
                                   else Inr (data_len,
                                             memcpy resp (drop 2 data1) (nat data_len),
                                             l5))))))"

subsection \<open>Chip level commands\<close>

definition pn532_firmware_ver :: "link \<Rightarrow> fault + u32 \<times> link" where
  "pn532_firmware_ver l =
     (let (ret, l1) = pn532_write_command 0x02 [] 0 l
      in if ret < 0 then Inr (0, l1)
         else
           (let ver = uninit 4 l1
            in case pn532_read_response 0x02 ver 4 l1 of
                 Inl f \<Rightarrow> Inl f
               | Inr (result, ver1, l2) \<Rightarrow>
                   if result < 4 then Inr (0, l2)
                   else Inr (foldl (\<lambda>version b. push_bit 8 version OR ucast b) 0 (take 4 ver1),
                             l2)))"

definition pn532_config_rf :: "link \<Rightarrow> fault + bool \<times> link" where
  "pn532_config_rf l =
     (let param = [0x05, 0xff, 0x01, 0x50];
          (w, l1) = pn532_write_command 0x32 param 4 l
      in case pn532_read_response 0x32 param 4 l1 of
           Inl f \<Rightarrow> Inl f
         | Inr (result, param1, l2) \<Rightarrow> Inr (result = 0, l2))"

definition pn532_config_sam :: "link \<Rightarrow> fault + bool \<times> link" where
  "pn532_config_sam l =
     (let param = [0x01, 0x14, 0x01];
          (w, l1) = pn532_write_command 0x14 param 3 l;
          resp = uninit 1 l1
      in case pn532_read_response 0x14 resp 1 l1 of
           Inl f \<Rightarrow> Inl f
         | Inr (result, resp1, l2) \<Rightarrow> Inr (result = 0, l2))"

subsection \<open>Tag sessions\<close>

text \<open>
  The file's two static objects, \<open>readbuf\<close> (255 bytes) and the packed struct
  \<open>felica_poll_cache\<close>, next to the state of the link.
\<close>

record felica_cache =
  idm :: "u8 list"
  pmm :: "u8 list"
  syscode :: "u8 list"
  inlist_tag :: u8

record pn532 =
  io :: link
  readbuf :: "u8 list"
  felica_poll_cache :: felica_cache

text \<open>
  The out-parameters \<open>uid\<close>, \<open>pmm\<close> and \<open>syscode\<close> are arrays of 8, 8 and 2 bytes that a
  successful call fills whole: the result carries the bytes stored in them, \<open>None\<close> when
  the call stores nothing.  The 18 bytes copied over the packed struct are its \<open>idm\<close>,
  \<open>pmm\<close> and \<open>syscode\<close>; \<open>inlist_tag\<close> lies behind them.
\<close>

definition pn532_poll_felica ::
  "bool \<Rightarrow> pn532 \<Rightarrow> fault + bool \<times> (u8 list \<times> u8 list \<times> u8 list) option \<times> pn532" where
  "pn532_poll_felica from_cache s =
     (if from_cache then
        Inr (True,
             Some (take 8 (idm (felica_poll_cache s)), take 8 (pmm (felica_poll_cache s)),
                   take 2 (syscode (felica_poll_cache s))),
             s)
      else
        (let param = [1, 1, 0, 0xff, 0xff, 1, 0];
             (ret, l1) = pn532_write_command 0x4a param 7 (io s)
         in if ret < 0 then Inr (False, None, s\<lparr>io := l1\<rparr>)
            else
              (case pn532_read_response 0x4a (readbuf s) 255 l1 of
                 Inl f \<Rightarrow> Inl f
               | Inr (result, rb, l2) \<Rightarrow>
                   (let s1 = s\<lparr>io := l2, readbuf := rb\<rparr>
                    in if result \<noteq> 22 \<or> rb ! 0 \<noteq> 1 \<or> rb ! 2 \<noteq> 20
                       then Inr (False, None, s1)
                       else
                         (let c = \<lparr>idm = take 8 (drop 4 rb), pmm = take 8 (drop 12 rb),
                                   syscode = take 2 (drop 20 rb), inlist_tag = rb ! 1\<rparr>
                          in Inr (True,
                                  Some (take 8 (drop 4 rb), take 8 (drop 12 rb),
                                        take 2 (drop 20 rb)),
                                  s1\<lparr>felica_poll_cache := c\<rparr>))))))"

definition pn532_mifare_auth ::
  "u8 list \<Rightarrow> u8 \<Rightarrow> u8 \<Rightarrow> u8 list \<Rightarrow> pn532 \<Rightarrow> fault + bool \<times> pn532" where
  "pn532_mifare_auth uid block_id key_id key s =
     (let param = [1, if key_id \<noteq> 0 then 0x61 else 0x60, block_id,
                   key ! 0, key ! 1, key ! 2, key ! 3, key ! 4, key ! 5,
                   uid ! 0, uid ! 1, uid ! 2, uid ! 3];
          (ret, l1) = pn532_write_command 0x40 param 13 (io s)
      in if ret < 0 then Inr (False, s\<lparr>io := l1\<rparr>)
         else
           (case pn532_read_response 0x40 (readbuf s) 255 l1 of
              Inl f \<Rightarrow> Inl f
            | Inr (result, rb, l2) \<Rightarrow>
                (let s1 = s\<lparr>io := l2, readbuf := rb\<rparr>
                 in if rb ! 0 \<noteq> 0 then Inr (False, s1) else Inr (True, s1))))"

text \<open>
  \<open>memmove\<close> takes its length as \<open>size_t\<close>.  When \<open>readbuf[1]\<close> is 0 the \<open>int\<close>
  \<open>outlen\<close> is \<open>-1\<close>, and a response with a body of one byte passes the test before the
  copy: the call then asks for a copy of \<open>SIZE_MAX\<close> bytes, far beyond both arrays, and
  the function has no result.  Both callers pass \<open>readbuf\<close> as \<open>outbuf\<close>, so the final
  copy moves \<open>readbuf\<close> two bytes down over itself.  \<open>cmd_buf\<close> has \<open>cmd_len + 1\<close> bytes, of
  which the last is never stored, and is sent whole.
\<close>

definition pn532_felica_command :: "u8 \<Rightarrow> u8 list \<Rightarrow> u8 \<Rightarrow> pn532 \<Rightarrow> fault + int \<times> pn532" where
  "pn532_felica_command cmd param param_len s =
     (let cmd_len = unat param_len + 11;
          cmd_buf = [inlist_tag (felica_poll_cache s), word_of_nat cmd_len, cmd]
                    @ take 8 (idm (felica_poll_cache s)) @ take (unat param_len) param
                    @ drop cmd_len (uninit (cmd_len + 1) (io s));
          (ret, l1) = pn532_write_command 0x40 cmd_buf (word_of_nat (cmd_len + 1)) (io s)
      in if ret < 0 then Inr (- 1, s\<lparr>io := l1\<rparr>)
         else
           (case pn532_read_response 0x40 (readbuf s) 255 l1 of
              Inl f \<Rightarrow> Inl f
            | Inr (result, rb, l2) \<Rightarrow>
                (let s1 = s\<lparr>io := l2, readbuf := rb\<rparr>;
                     outlen = uint (rb ! 1) - 1
                 in if (rb ! 0) AND 0x3f \<noteq> 0 \<or> result - 2 \<noteq> outlen then Inr (- 1, s1)
                    else if outlen < 0 then Inl Memmove_beyond_array
                    else Inr (outlen,
                              s1\<lparr>readbuf := memcpy rb (drop 2 rb) (nat outlen)\<rparr>))))"

text \<open>The out-parameter \<open>block_data\<close> (16 bytes) is stored on both paths.\<close>

definition pn532_felica_read :: "u16 \<Rightarrow> u16 \<Rightarrow> pn532 \<Rightarrow> fault + bool \<times> u8 list \<times> pn532" where
  "pn532_felica_read svc_code block_id s =
     (let param = [1, ucast (svc_code AND 0xff), ucast (drop_bit 8 svc_code),
                   1, ucast (drop_bit 8 block_id), ucast (block_id AND 0xff)]
      in case pn532_felica_command 0x06 param 6 s of
           Inl f \<Rightarrow> Inl f
         | Inr (result, s1) \<Rightarrow>
             if result \<noteq> 12 + 16 \<or> readbuf s1 ! 9 \<noteq> 0 \<or> readbuf s1 ! 10 \<noteq> 0
             then Inr (True, replicate 16 0, s1)
             else Inr (True, take 16 (drop 12 (readbuf s1)), s1))"

text \<open>The loop after the test prints the first \<open>result\<close> bytes of \<open>readbuf\<close>.\<close>

definition pn532_felica_write :: "u16 \<Rightarrow> u16 \<Rightarrow> u8 list \<Rightarrow> pn532 \<Rightarrow> fault + bool \<times> pn532" where
  "pn532_felica_write svc_code block_id block_data s =
     (let param = [1, ucast (svc_code AND 0xff), ucast (drop_bit 8 svc_code),
                   1, ucast (drop_bit 8 block_id), ucast (block_id AND 0xff)]
                  @ take 16 block_data
      in case pn532_felica_command 0x08 param 22 s of
           Inl f \<Rightarrow> Inl f
         | Inr (result, s1) \<Rightarrow>
             if result < 0 then Inr (False, s1)
             else Inr (False,
                       s1\<lparr>io := foldl (\<lambda>l b. emit (Printf_hex b) l) (io s1)
                                   (take (nat result) (readbuf s1))\<rparr>))"

subsection \<open>The chip's side of an exchange\<close>

text \<open>
  Modelled from the spec: the frame of section 3 that the chip sends for a payload,
  \<open>[preamble][start1][start2][length][length-checksum][payload][payload-checksum][postamble]\<close>,
  both checksums making their sum 0 modulo 256.
\<close>

definition chip_frame :: "u8 list \<Rightarrow> u8 list" where
  "chip_frame payload =
     [0, 0, 0xff, word_of_nat (length payload), - word_of_nat (length payload)]
     @ payload @ [- foldl (+) 0 payload, 0]"

text \<open>Bytes as they travel on the link, least significant bit first.\<close>

definition on_wire :: "u8 list \<Rightarrow> u8 list" where
  "on_wire bs = map reverse_bit bs"

text \<open>
  The replies of a chip that is ready at the first status read and then sends a frame:
  the status byte \<open>0x01\<close>, the five header bytes, and the rest of the frame.
\<close>

definition chip_sends :: "u8 list \<Rightarrow> u8 list list" where
  "chip_sends frame = [on_wire [0x01], on_wire (take 5 frame), on_wire (drop 5 frame)]"

definition chip_acks :: "u8 list list" where
  "chip_acks = [on_wire [0x01], on_wire expect_ack]"

text \<open>A status reply that makes \<open>pn532_wait_ready\<close> stop: a byte arrives, and it reads \<open>0x01\<close>.\<close>

definition status_ready :: "u8 list \<Rightarrow> bool" where
  "status_ready r = (case r of [] \<Rightarrow> False | b # bs \<Rightarrow> reverse_bit b = 0x01)"

definition wait_loop_calls :: "event list \<Rightarrow> nat" where
  "wait_loop_calls tr = length (filter (\<lambda>e. e = Wait_loop_call) tr)"

text \<open>
  The status reads of one call of \<open>pn532_wait_ready\<close> that fail: of its 30 reads, those
  in front of the first that is ready.  A reply the chip does not give is a read of no
  byte.
\<close>

definition failed_status_reads :: "u8 list list \<Rightarrow> nat" where
  "failed_status_reads replies =
     length (takeWhile (\<lambda>r. \<not> status_ready r) (take 30 (replies @ replicate 30 [])))"

text \<open>
  The link after \<open>pn532_init\<close> has released chip-select, with a silent chip, in a build
  that leaves the byte behind every local array unused, and the driver with its static
  objects still zero.
\<close>

definition idle_link :: link where
  "idle_link =
     \<lparr>wait_loop = False, nss = True, miso = [], junk = [], tight = [], trace = []\<rparr>"

definition fresh_driver :: pn532 where
  "fresh_driver =
     \<lparr>io = idle_link, readbuf = replicate 255 0,
      felica_poll_cache =
        \<lparr>idm = replicate 8 0, pmm = replicate 8 0, syscode = replicate 2 0, inlist_tag = 0\<rparr>\<rparr>"

section \<open>Properties\<close>

subsection \<open>Bit reversal and the raw transfers\<close>

lemma bit_reverse_step:
  "i < 8 \<Longrightarrow> bit (reverse_step x y i) n \<longleftrightarrow> bit y n \<or> (bit x i \<and> n = 7 - i)"
  by (auto simp: reverse_step_def and_exp_eq_0_iff_not_bit bit_simps)

lemma bit_reverse_loop:
  "k \<le> 8 \<Longrightarrow>
   bit (foldl (reverse_step x) y0 [0..<k]) n \<longleftrightarrow> bit y0 n \<or> (\<exists>i<k. bit x i \<and> n = 7 - i)"
proof (induction k)
  case 0
  then show ?case by simp
next
  case (Suc k)
  then have "k < 8" by simp
  with Suc show ?case
    by (auto simp: bit_reverse_step less_Suc_eq)
qed

lemma bit_reverse_bit: "bit (reverse_bit x) n \<longleftrightarrow> n < 8 \<and> bit x (7 - n)"
proof -
  have "(\<exists>i<8. bit x i \<and> n = 7 - i) \<longleftrightarrow> n < 8 \<and> bit x (7 - n)"
  proof
    assume "\<exists>i<8. bit x i \<and> n = 7 - i"
    then obtain i where "i < 8" "bit x i" "n = 7 - i" by blast
    then show "n < 8 \<and> bit x (7 - n)" by simp
  next
    assume "n < 8 \<and> bit x (7 - n)"
    then have "7 - n < 8 \<and> bit x (7 - n) \<and> n = 7 - (7 - n)" by simp
    then show "\<exists>i<8. bit x i \<and> n = 7 - i" by blast
  qed
  then show ?thesis
    using bit_reverse_loop [of 8 x 0 n] by (simp add: reverse_bit_def)
qed

lemma reverse_bit_involution [simp]: "reverse_bit (reverse_bit x) = x"
  by (rule bit_eqI) (auto simp: bit_reverse_bit)

lemma on_wire_on_wire [simp]: "map reverse_bit (on_wire bs) = bs"
  by (simp add: on_wire_def comp_def)

lemma length_on_wire [simp]: "length (on_wire bs) = length bs"
  by (simp add: on_wire_def)

lemma take_on_wire: "take n (on_wire bs) = on_wire (take n bs)"
  by (simp add: on_wire_def take_map)

lemma do_read_reply:
  assumes "miso l = r # rs" and "unat len \<le> length r"
  shows "pn532_do_read data len l =
           (int (unat len), map reverse_bit (take (unat len) r) @ drop (unat len) data,
            emit (Spi_read (unat len) (take (unat len) r)) (l\<lparr>miso := rs\<rparr>))"
  using assms by (simp add: pn532_do_read_def spi_read_blocking_def Let_def min_def)

lemma do_read_result_le:
  "fst (pn532_do_read data len l) \<le> int (unat len)"
  by (simp add: pn532_do_read_def spi_read_blocking_def Let_def split: list.splits
      del: of_nat_unat)

lemma emit_fields [simp]:
  "miso (emit e l) = miso l" "junk (emit e l) = junk l" "nss (emit e l) = nss l"
  "tight (emit e l) = tight l"
  "wait_loop (emit e l) = wait_loop l" "trace (emit e l) = trace l @ [e]"
  by (simp_all add: emit_def)

lemma begin_read_fields [simp]:
  "miso (pn532_begin_read m l) = miso l" "junk (pn532_begin_read m l) = junk l"
  "tight (pn532_begin_read m l) = tight l"
  "wait_loop (pn532_begin_read m l) = wait_loop l" "nss (pn532_begin_read m l) = False"
  by (simp_all add: pn532_begin_read_def spi_write_blocking_def sleep_ms_rtos_def gpio_put_def Let_def)

lemma end_read_fields [simp]:
  "miso (pn532_end_read l) = miso l" "junk (pn532_end_read l) = junk l"
  "tight (pn532_end_read l) = tight l"
  "wait_loop (pn532_end_read l) = wait_loop l" "nss (pn532_end_read l) = True"
  by (simp_all add: pn532_end_read_def sleep_ms_rtos_def gpio_put_def Let_def)

lemma foldl_add_word: "foldl (+) (a::u8) xs = a + foldl (+) 0 xs"
proof (induction xs arbitrary: a)
  case Nil
  then show ?case by simp
next
  case (Cons x xs)
  from Cons [of "a + x"] Cons [of "0 + x"] show ?case by (simp add: add.assoc)
qed

lemma chip_frame_eq_write_data_frame:
  assumes "length p \<le> 255"
  shows "write_data_frame p (word_of_nat (length p)) = chip_frame p"
proof -
  have u: "unat (word_of_nat (length p) :: u8) = length p"
    using assms by (simp add: unat_of_nat)
  have "NOT (foldl (+) (0xff::u8) p) = - foldl (+) 0 p"
    by (subst foldl_add_word) (simp add: not_eq_complement)
  moreover have "NOT (word_of_nat (length p) :: u8) + 1 = - word_of_nat (length p)"
    by (simp add: not_eq_complement)
  ultimately show ?thesis
    by (simp add: write_data_frame_def chip_frame_def u Let_def PN532_PREAMBLE_def
        PN532_STARTCODE1_def PN532_STARTCODE2_def PN532_POSTAMBLE_def)
qed

subsection \<open>The ready poll\<close>

lemma calls_Nil [simp]: "wait_loop_calls [] = 0"
  by (simp add: wait_loop_calls_def)

lemma calls_Cons [simp]:
  "wait_loop_calls (e # es) = (if e = Wait_loop_call then 1 else 0) + wait_loop_calls es"
  by (simp add: wait_loop_calls_def)

lemma calls_append [simp]:
  "wait_loop_calls (tr @ es) = wait_loop_calls tr + wait_loop_calls es"
  by (simp add: wait_loop_calls_def)

lemma begin_read_calls [simp]:
  "wait_loop_calls (trace (pn532_begin_read m l)) = wait_loop_calls (trace l)"
  by (simp add: pn532_begin_read_def spi_write_blocking_def sleep_ms_rtos_def gpio_put_def Let_def)

lemma end_read_calls [simp]:
  "wait_loop_calls (trace (pn532_end_read l)) = wait_loop_calls (trace l)"
  by (simp add: pn532_end_read_def sleep_ms_rtos_def gpio_put_def)

lemma reverse_bit_0 [simp]: "reverse_bit 0 = 0"
  by (rule bit_eqI) (simp add: bit_reverse_bit)

lemma status_read:
  "pn532_do_read [0] 1 l =
     (case miso l of
        [] \<Rightarrow> (0, [0], emit (Spi_read 1 []) l)
      | [] # rs \<Rightarrow> (0, [0], emit (Spi_read 1 []) (l\<lparr>miso := rs\<rparr>))
      | (b # bs) # rs \<Rightarrow> (1, [reverse_bit b], emit (Spi_read 1 [b]) (l\<lparr>miso := rs\<rparr>)))"
  by (simp add: pn532_do_read_def spi_read_blocking_def Let_def split: list.splits)

lemma status_poll_ready:
  "fst (status_poll l) = status_ready (case miso l of [] \<Rightarrow> [] | r # rs \<Rightarrow> r)"
  by (simp add: status_poll_def status_read status_ready_def Let_def split: list.splits)

lemma status_poll_fields [simp]:
  "miso (snd (status_poll l)) = tl (miso l)" "wait_loop (snd (status_poll l)) = wait_loop l"
  "junk (snd (status_poll l)) = junk l" "nss (snd (status_poll l)) = True"
  "tight (snd (status_poll l)) = tight l"
  "wait_loop_calls (trace (snd (status_poll l))) = wait_loop_calls (trace l)"
  by (simp_all add: status_poll_def status_read Let_def split: list.splits)

lemma idle_step_fields [simp]:
  "miso (idle_step l) = miso l" "wait_loop (idle_step l) = wait_loop l"
  "junk (idle_step l) = junk l" "nss (idle_step l) = nss l"
  "tight (idle_step l) = tight l"
  "wait_loop_calls (trace (idle_step l)) = wait_loop_calls (trace l) + (if wait_loop l then 1 else 0)"
  by (simp_all add: idle_step_def sleep_ms_rtos_def)

lemma wait_ready_from_step:
  assumes "retry < 30"
  shows "wait_ready_from retry l =
           (if fst (status_poll l) then (True, snd (status_poll l))
            else wait_ready_from (Suc retry) (idle_step (snd (status_poll l))))"
  using assms
  by (subst wait_ready_from.simps) (simp add: Let_def split: prod.splits)

lemma wait_ready_from_calls:
  "wait_loop_calls (trace (snd (wait_ready_from retry l))) \<le> wait_loop_calls (trace l) + (30 - retry)"
proof (induction "30 - retry" arbitrary: retry l)
  case 0
  then show ?case by (subst wait_ready_from.simps) simp
next
  case (Suc k)
  then have r: "retry < 30" and k: "k = 30 - Suc retry" by simp_all
  from Suc.hyps(1) [OF k, of "idle_step (snd (status_poll l))"] r show ?case
    by (auto simp: wait_ready_from_step [OF r] split: if_splits)
qed

lemma wait_ready_from_false_calls:
  "\<not> fst (wait_ready_from retry l) \<Longrightarrow> wait_loop l \<Longrightarrow>
   wait_loop_calls (trace (snd (wait_ready_from retry l))) = wait_loop_calls (trace l) + (30 - retry)"
proof (induction "30 - retry" arbitrary: retry l)
  case 0
  then show ?case by (subst wait_ready_from.simps) simp
next
  case (Suc k)
  then have r: "retry < 30" and k: "k = 30 - Suc retry" by simp_all
  from Suc.prems have nr: "\<not> fst (status_poll l)"
    by (auto simp: wait_ready_from_step [OF r] split: if_splits)
  with Suc.prems have "\<not> fst (wait_ready_from (Suc retry) (idle_step (snd (status_poll l))))"
    by (simp add: wait_ready_from_step [OF r])
  from Suc.hyps(1) [OF k this] Suc.prems(2) r nr show ?case
    by (simp add: wait_ready_from_step [OF r])
qed

lemma wait_ready_from_false_iff:
  "fst (wait_ready_from retry l) = False \<longleftrightarrow>
   (\<forall>r \<in> set (take (30 - retry) (miso l)). \<not> status_ready r)"
proof (induction "30 - retry" arbitrary: retry l)
  case 0
  then show ?case by (subst wait_ready_from.simps) simp
next
  case (Suc k)
  then have r: "retry < 30" and k: "k = 30 - Suc retry" by simp_all
  have split: "30 - retry = Suc (30 - Suc retry)" using r by simp
  show ?case
  proof (cases "miso l")
    case Nil
    with Suc.hyps(1) [OF k, of "idle_step (snd (status_poll l))"] show ?thesis
      by (simp add: wait_ready_from_step [OF r] status_poll_ready status_ready_def)
  next
    case (Cons a as)
    with Suc.hyps(1) [OF k, of "idle_step (snd (status_poll l))"] show ?thesis
      by (simp add: wait_ready_from_step [OF r] status_poll_ready split)
  qed
qed


lemma wait_ready_from_exact:
  "30 - retry \<le> m \<Longrightarrow>
   wait_loop_calls (trace (snd (wait_ready_from retry l))) =
     wait_loop_calls (trace l)
     + (if wait_loop l
        then length (takeWhile (\<lambda>r. \<not> status_ready r)
                       (take (30 - retry) (miso l @ replicate m [])))
        else 0)"
proof (induction "30 - retry" arbitrary: retry l m)
  case 0
  then show ?case by (subst wait_ready_from.simps) simp
next
  case (Suc k)
  then have r: "retry < 30" and k: "k = 30 - Suc retry" by simp_all
  have split: "30 - retry = Suc (30 - Suc retry)" using r by simp
  show ?case
  proof (cases "miso l")
    case Nil
    from Suc.prems Suc.hyps(2) obtain m' where m: "m = Suc m'" and m': "30 - Suc retry \<le> m'"
      by (cases m) simp_all
    from Suc.hyps(1) [OF k m', of "idle_step (snd (status_poll l))"] Nil show ?thesis
      by (simp add: wait_ready_from_step [OF r] status_poll_ready status_ready_def split m)
  next
    case (Cons a as)
    from Suc.prems split have m: "30 - Suc retry \<le> m" by simp
    from Suc.hyps(1) [OF k m, of "idle_step (snd (status_poll l))"] Cons show ?thesis
      by (simp add: wait_ready_from_step [OF r] status_poll_ready split)
  qed
qed

lemma wait_ready_from_tight [simp]: "tight (snd (wait_ready_from retry l)) = tight l"
proof (induction "30 - retry" arbitrary: retry l)
  case 0
  then show ?case by (subst wait_ready_from.simps) simp
next
  case (Suc k)
  then have r: "retry < 30" and k: "k = 30 - Suc retry" by simp_all
  from Suc.hyps(1) [OF k, of "idle_step (snd (status_poll l))"] show ?case
    by (simp add: wait_ready_from_step [OF r])
qed

lemma wait_ready_tight [simp]: "tight (snd (pn532_wait_ready l)) = tight l"
  by (simp add: pn532_wait_ready_def)

lemma failed_status_reads_le: "failed_status_reads replies \<le> 30"
proof -
  have "length (takeWhile (\<lambda>r. \<not> status_ready r) (take 30 (replies @ replicate 30 [])))
          \<le> length (take 30 (replies @ replicate 30 []))"
    by (rule length_takeWhile_le)
  then show ?thesis by (simp add: failed_status_reads_def)
qed

lemma failed_status_reads_30:
  "failed_status_reads replies = 30 \<longleftrightarrow> (\<forall>r \<in> set (take 30 replies). \<not> status_ready r)"
proof -
  let ?xs = "take 30 (replies @ replicate 30 [])"
  have len: "length ?xs = 30" by simp
  have "length (takeWhile (\<lambda>r. \<not> status_ready r) ?xs) = length ?xs
          \<longleftrightarrow> takeWhile (\<lambda>r. \<not> status_ready r) ?xs = ?xs"
    by (metis takeWhile_eq_take take_all order_refl)
  also have "\<dots> \<longleftrightarrow> (\<forall>r \<in> set ?xs. \<not> status_ready r)"
    by (simp only: takeWhile_eq_all_conv)
  also have "\<dots> \<longleftrightarrow> (\<forall>r \<in> set (take 30 replies). \<not> status_ready r)"
    by (auto simp: status_ready_def dest: in_set_takeD)
  finally show ?thesis
    unfolding failed_status_reads_def len .
qed

text \<open>
  C2, as the code has it.  Between entry and return \<open>pn532_wait_ready\<close> invokes the
  registered callback exactly once for every status read that fails, the thirtieth
  included, and never otherwise: the number of invocations is the number of failed status
  reads, which is at most 30, and is 0 without a callback.  It returns false exactly when
  all 30 status reads fail, that is when none of them delivers a byte that reads \<open>0x01\<close>, a
  reply the chip does not give counting as a read of no byte; and when it returns false
  with a callback registered, the callback has run 30 times.
\<close>

theorem wait_ready_budget:
  "wait_loop_calls (trace (snd (pn532_wait_ready l)))
     = wait_loop_calls (trace l) + (if wait_loop l then failed_status_reads (miso l) else 0)
   \<and> failed_status_reads (miso l) \<le> 30
   \<and> (fst (pn532_wait_ready l) = False \<longleftrightarrow> failed_status_reads (miso l) = 30)
   \<and> wait_loop_calls (trace (snd (pn532_wait_ready l))) \<le> wait_loop_calls (trace l) + 30
   \<and> (fst (pn532_wait_ready l) = False
        \<longleftrightarrow> (\<forall>r \<in> set (take 30 (miso l)). \<not> status_ready r))
   \<and> (wait_loop l \<and> fst (pn532_wait_ready l) = False
        \<longrightarrow> wait_loop_calls (trace (snd (pn532_wait_ready l))) = wait_loop_calls (trace l) + 30)"
  using wait_ready_from_calls [of 0 l] wait_ready_from_false_iff [of 0 l]
    wait_ready_from_false_calls [of 0 l] wait_ready_from_exact [of 0 30 l]
    failed_status_reads_le [of "miso l"] failed_status_reads_30 [of "miso l"]
  by (simp add: pn532_wait_ready_def failed_status_reads_def)

theorem wait_ready_budget_witness:
  "list_all (\<lambda>r. \<not> status_ready r)
     (take 30 (miso (pn532_set_wait_loop True (idle_link\<lparr>miso := [on_wire [0x00], []]\<rparr>))))
   \<and> wait_loop (pn532_set_wait_loop True (idle_link\<lparr>miso := [on_wire [0x00], []]\<rparr>))
   \<and> fst (pn532_wait_ready (pn532_set_wait_loop True (idle_link\<lparr>miso := [on_wire [0x00], []]\<rparr>)))
       = False
   \<and> failed_status_reads
       (miso (pn532_set_wait_loop True (idle_link\<lparr>miso := [on_wire [0x00], []]\<rparr>))) = 30
   \<and> wait_loop_calls (trace (snd (pn532_wait_ready
         (pn532_set_wait_loop True (idle_link\<lparr>miso := [on_wire [0x00], []]\<rparr>))))) = 30"
proof -
  have a: "\<forall>r \<in> set (take 30 (miso (pn532_set_wait_loop True
             (idle_link\<lparr>miso := [on_wire [0x00], []]\<rparr>)))). \<not> status_ready r"
    by (simp add: pn532_set_wait_loop_def idle_link_def on_wire_def status_ready_def)
  have w: "wait_loop (pn532_set_wait_loop True (idle_link\<lparr>miso := [on_wire [0x00], []]\<rparr>))"
    by (simp add: pn532_set_wait_loop_def)
  have t: "trace (pn532_set_wait_loop True (idle_link\<lparr>miso := [on_wire [0x00], []]\<rparr>)) = []"
    by (simp add: pn532_set_wait_loop_def idle_link_def)
  from wait_ready_budget [of "pn532_set_wait_loop True (idle_link\<lparr>miso := [on_wire [0x00], []]\<rparr>)"]
    a w t
  show ?thesis by (auto simp: list_all_iff)
qed

text \<open>
  C2, as stated, fails at a silent chip with a callback registered: all 30 reads fail and
  the callback runs after each of them, 30 times and not at most 29.
\<close>

theorem wait_ready_thirty_calls:
  "\<not> wait_loop_calls (trace (snd (pn532_wait_ready (pn532_set_wait_loop True idle_link)))) \<le> 29"
  by code_simp

text \<open>
  A chip that is ready at the third status read: two reads fail, the callback runs twice
  and the function returns true; without a callback it does not run.
\<close>

lemma wait_ready_two_failed_reads:
  "failed_status_reads [on_wire [0x00], [], on_wire [0x01], on_wire [0x00]] = 2
   \<and> fst (pn532_wait_ready (pn532_set_wait_loop True
        (idle_link\<lparr>miso := [on_wire [0x00], [], on_wire [0x01], on_wire [0x00]]\<rparr>))) = True
   \<and> wait_loop_calls (trace (snd (pn532_wait_ready (pn532_set_wait_loop True
        (idle_link\<lparr>miso := [on_wire [0x00], [], on_wire [0x01], on_wire [0x00]]\<rparr>))))) = 2
   \<and> wait_loop_calls (trace (snd (pn532_wait_ready
        (idle_link\<lparr>miso := [on_wire [0x00], [], on_wire [0x01], on_wire [0x00]]\<rparr>)))) = 0"
  by code_simp

subsection \<open>Frames\<close>

lemma length_uninit [simp]: "length (uninit n l) = n"
  by (simp add: uninit_def)

lemma unat_of_nat_u8: "n \<le> 255 \<Longrightarrow> unat (word_of_nat n :: u8) = n"
  by (simp add: unat_of_nat)

lemma uint_of_nat_u8: "n \<le> 255 \<Longrightarrow> uint (word_of_nat n :: u8) = int n"
  by (simp add: uint_nat unat_of_nat_u8 del: of_nat_unat)

lemma take5_chip_frame:
  "take 5 (chip_frame p) = [0, 0, 0xff, word_of_nat (length p), - word_of_nat (length p)]"
  by (simp add: chip_frame_def)

lemma drop5_chip_frame:
  "drop 5 (chip_frame p) = p @ [- foldl (+) 0 p, 0]"
  by (simp add: chip_frame_def)

lemma peak_header:
  assumes "miso l = on_wire (take 5 (chip_frame p)) # rs" and "length p \<le> 255"
  shows "pn532_peak_response_len l =
           (int (length p), emit (Spi_read 5 (on_wire (take 5 (chip_frame p)))) (l\<lparr>miso := rs\<rparr>))"
proof -
  have "pn532_do_read (uninit 5 l) 5 l =
          (5, take 5 (chip_frame p), emit (Spi_read 5 (on_wire (take 5 (chip_frame p)))) (l\<lparr>miso := rs\<rparr>))"
    using do_read_reply [of l "on_wire (take 5 (chip_frame p))" rs 5 "uninit 5 l"] assms(1)
    by (simp add: take5_chip_frame)
  then show ?thesis
    using assms(2)
    by (simp add: pn532_peak_response_len_def take5_chip_frame uint_of_nat_u8
        PN532_PREAMBLE_def PN532_STARTCODE1_def PN532_STARTCODE2_def)
qed

lemma unat_plus2:
  "unat len \<le> 253 \<Longrightarrow> unat (word_of_nat (unat len + 2) :: u8) = unat len + 2"
proof -
  assume a: "unat len \<le> 253"
  have "unat (word_of_nat (unat len + 2) :: u8) = (unat len + 2) mod 2 ^ LENGTH(8)"
    by (rule unat_of_nat)
  also have "\<dots> = unat len + 2" using a by simp
  finally show ?thesis .
qed

lemma read_frame_payload:
  assumes "miso l = on_wire (p @ [c, 0]) # rs" and "length p = unat len" and "unat len \<le> 253"
  shows "read_frame (uninit (unat len + 2) l) (word_of_nat (unat len + 2)) l =
          (int (unat len + 2), p @ [c, 0],
           emit (Spi_read (unat len + 2) (on_wire (p @ [c, 0]))) (l\<lparr>miso := rs\<rparr>))"
proof -
  note n = unat_plus2 [OF assms(3)]
  have len: "unat len + 2 \<le> length (on_wire (p @ [c, 0]))"
    using assms(2) by simp
  show ?thesis
    unfolding read_frame_def
    using do_read_reply [of l "on_wire (p @ [c, 0])" rs "word_of_nat (unat len + 2)"
        "uninit (unat len + 2) l", unfolded n, OF assms(1) len] assms(2)
    by simp
qed

text \<open>
  \<open>pn532_read_data\<close> on the part of a valid frame behind the header: with room for the
  checksum byte in \<open>data\<close>, or with the byte behind \<open>data\<close> unused, it returns the length
  and \<open>data\<close> holds the payload; with an array of just \<open>len\<close> bytes and an object in use
  behind it, the store of the checksum byte hits that object.  From 254 bytes on it
  returns \<open>-1\<close> before any store.  No other fault comes out of it.
\<close>

lemma read_data_payload:
  assumes "miso l = on_wire (p @ [c, 0]) # rs" and "length p = unat len" and "unat len \<le> 253"
    and "foldl (+) 0 p + c = 0"
    and "unat len < length data \<or> (length data = unat len \<and> unat len \<notin> set (tight l))"
  shows "pn532_read_data data len l =
           Inr (uint len, take (length data) (p @ [c] @ drop (unat len + 1) data),
                emit (Spi_read (unat len + 2) (on_wire (p @ [c, 0]))) (l\<lparr>miso := rs\<rparr>))"
proof -
  note rd = read_frame_payload [OF assms(1,2,3)]
  have ck: "foldl (+) 0 (take (unat len + 1) (p @ [c, 0])) = 0"
    using assms(2,4) by simp
  have post: "(p @ [c, 0]) ! (unat len + 1) = 0"
    using assms(2) by (simp add: nth_append)
  have cp: "memcpy data (p @ [c, 0]) (unat len + 1) = p @ [c] @ drop (unat len + 1) data"
    using assms(2) by (simp add: memcpy_def)
  have room: "\<not> (length data < unat len
                 \<or> (length data = unat len \<and> unat len \<in> set (tight l)))"
    using assms(5) by auto
  show ?thesis
    unfolding pn532_read_data_def Let_def rd prod.case ck post cp PN532_POSTAMBLE_def
    using room by simp
qed

lemma read_data_tight:
  assumes "miso l = on_wire (p @ [c, 0]) # rs" and "length p = unat len" and "unat len \<le> 253"
    and "length data = unat len" and "unat len \<in> set (tight l)"
  shows "pn532_read_data data len l = Inl Store_beyond_array"
proof -
  note rd = read_frame_payload [OF assms(1,2,3)]
  show ?thesis
    unfolding pn532_read_data_def Let_def rd prod.case
    using assms(4,5) by simp
qed

lemma read_data_too_long:
  assumes "254 \<le> unat len"
  shows "map_sum id fst (pn532_read_data data len l) = Inr (- 1)"
proof -
  obtain result resp1 l1 where
    rf: "read_frame (uninit (unat len + 2) l) (word_of_nat (unat len + 2)) l = (result, resp1, l1)"
    by (metis prod_cases3)
  have "unat len < 2 ^ 8" using unsigned_less [of len] by simp
  then have "unat len < 256" by simp
  with assms have "unat len = 254 \<or> unat len = 255" by arith
  moreover have "unat (word_of_nat (unat len + 2) :: u8) = (unat len + 2) mod 2 ^ LENGTH(8)"
    by (rule unat_of_nat)
  ultimately have b: "unat (word_of_nat (unat len + 2) :: u8) \<le> 1"
    by auto
  have "result \<le> int (unat (word_of_nat (unat len + 2) :: u8))"
    using do_read_result_le [of "uninit (unat len + 2) l" "word_of_nat (unat len + 2)" l]
    unfolding read_frame_def [symmetric] rf fst_conv .
  with b have "result \<le> 1"
    by linarith
  with assms have ne: "result \<noteq> int (unat len + 2)"
    by (simp del: of_nat_unat)
  show ?thesis
    unfolding pn532_read_data_def Let_def rf prod.case using ne by simp
qed

lemma read_data_fault:
  "pn532_read_data data len l = Inl f \<Longrightarrow> f = Store_beyond_array"
  by (auto simp: pn532_read_data_def Let_def split: prod.splits if_splits)

text \<open>
  The frame array that \<open>pn532_write_data\<close> builds, \<open>pn532_read_data\<close> takes apart again,
  for payloads of up to 253 bytes and a destination that can take the checksum byte: fed
  the part of the frame behind the five header bytes, as it goes over the wire, it
  returns the length and stores the payload.
\<close>

lemma write_data_read_data_roundtrip:
  assumes "length p = n" and "n \<le> 253"
    and "miso l = on_wire (drop 5 (write_data_frame p (word_of_nat n))) # rs"
    and "n < length data \<or> (length data = n \<and> n \<notin> set (tight l))"
  shows "map_sum id (\<lambda>(ret, data1, l1). (ret, take n data1)) (pn532_read_data data (word_of_nat n) l)
         = Inr (int n, p)"
proof -
  have u: "unat (word_of_nat n :: u8) = n"
    using assms(2) by (simp add: unat_of_nat_u8)
  have f: "write_data_frame p (word_of_nat n) = chip_frame p"
    using chip_frame_eq_write_data_frame [of p] assms(1,2) by simp
  have "pn532_read_data data (word_of_nat n) l =
          Inr (uint (word_of_nat n :: u8),
               take (length data)
                 (p @ [- foldl (+) 0 p] @ drop (unat (word_of_nat n :: u8) + 1) data),
               emit (Spi_read (unat (word_of_nat n :: u8) + 2) (on_wire (p @ [- foldl (+) 0 p, 0])))
                 (l\<lparr>miso := rs\<rparr>))"
    using assms by (intro read_data_payload) (simp_all add: u f drop5_chip_frame)
  then show ?thesis
    using assms(1,2,4) by (auto simp: uint_of_nat_u8)
qed

text \<open>
  What \<open>pn532_write_data\<close> sends of the array is less from 249 bytes on: \<open>write_frame\<close>
  gets \<open>7 + len\<close> as \<open>uint8_t\<close>, so a payload of 248 bytes goes out in full (256 bytes
  with the mode byte in front) and for one of 249 bytes the mode byte goes out alone.
\<close>

lemma write_frame_result: "fst (write_frame frame len l) = int (unat len) + 1"
  by (simp add: write_frame_def pn532_write_def spi_write_blocking_def Let_def)

lemma write_data_249_truncated:
  "fst (write_frame (write_data_frame (replicate 248 0x5a) 248)
          (word_of_nat (7 + unat (248 :: u8))) idle_link) = 256
   \<and> trace (snd (write_frame (write_data_frame (replicate 249 0x5a) 249)
          (word_of_nat (7 + unat (249 :: u8))) idle_link))
     = [Gpio_put False, Sleep_ms 2, Spi_write [reverse_bit DATA_WRITE], Gpio_put True, Sleep_ms 2]"
  by code_simp

text \<open>
  C3.  For a payload of 254 bytes (and likewise 255) the round trip stops in
  \<open>pn532_read_data\<close>: the frame \<open>pn532_write_data\<close> builds is the well-formed frame of 261
  bytes, but \<open>len + 2 = 256\<close> reaches \<open>read_frame\<close> as the \<open>uint8_t\<close> 0, no byte is
  read, the result 0 differs from 256 and the function returns \<open>-1\<close>.  With one byte
  fewer the same call returns the length.
\<close>

theorem read_data_254_fails:
  "write_data_frame (replicate 254 0x5a) 254 = chip_frame (replicate 254 0x5a)
   \<and> map_sum id fst (pn532_read_data (uninit 254 idle_link) 254
          (idle_link\<lparr>miso := [on_wire (drop 5 (write_data_frame (replicate 254 0x5a) 254))]\<rparr>))
       = Inr (- 1)
   \<and> map_sum id fst (pn532_read_data (uninit 253 idle_link) 253
          (idle_link\<lparr>miso := [on_wire (drop 5 (write_data_frame (replicate 253 0x5a) 253))]\<rparr>))
       = Inr 253"
  by code_simp

subsection \<open>Responses\<close>

lemma write_data_result:
  "fst (pn532_write_data data len l) = 0 \<or> fst (pn532_write_data data len l) = 1"
  by (simp add: pn532_write_data_def Let_def split: prod.splits)

lemma write_command_result:
  "fst (pn532_write_command cmd param len l) = 0 \<or> fst (pn532_write_command cmd param len l) = 1"
  unfolding pn532_write_command_def Let_def by (rule write_data_result)

lemma write_command_not_negative: "\<not> fst (pn532_write_command cmd param len l) < 0"
  using write_command_result [of cmd param len l] by auto

text \<open>
  \<open>pn532_read_response\<close> returns \<open>-1\<close> with the buffer untouched, or a positive length,
  never 0; so the test \<open>== 0\<close> of the two configuration functions fails whenever they
  return.  Its only fault is the store behind \<open>data\<close>.
\<close>

lemma read_response_cases:
  "case pn532_read_response cmd resp len l of
     Inl f \<Rightarrow> f = Store_beyond_array
   | Inr (r, resp1, l1) \<Rightarrow> (r = - 1 \<and> resp1 = resp) \<or> 0 < r"
  by (auto simp: pn532_read_response_def Let_def
      split: prod.splits sum.splits if_splits dest: read_data_fault)

lemma read_response_never_0: "pn532_read_response cmd resp len l \<noteq> Inr (0, resp1, l1)"
  using read_response_cases [where cmd = cmd and resp = resp and len = len and l = l]
  by (auto split: sum.splits)

lemma read_response_failure_keeps_resp:
  "pn532_read_response cmd resp len l = Inr (- 1, resp1, l1) \<Longrightarrow> resp1 = resp"
  using read_response_cases [where cmd = cmd and resp = resp and len = len and l = l]
  by (auto split: sum.splits)

lemma config_rf_never_succeeds: "pn532_config_rf l \<noteq> Inr (True, l1)"
  by (auto simp: pn532_config_rf_def Let_def read_response_never_0
      split: prod.splits sum.splits)

lemma config_sam_never_succeeds: "pn532_config_sam l \<noteq> Inr (True, l1)"
  by (auto simp: pn532_config_sam_def Let_def read_response_never_0
      split: prod.splits sum.splits)

lemma do_read_tight [simp]: "tight (snd (snd (pn532_do_read data len l))) = tight l"
  by (simp add: pn532_do_read_def spi_read_blocking_def Let_def split: list.splits)

text \<open>
  Let the chip, once \<open>pn532_wait_ready\<close> is over, send a frame with valid preamble,
  start bytes, length checksum, payload checksum and postamble, for a payload of any
  length the length byte can hold, and let the byte behind an array of that length be
  unused.  If the payload's direction byte is not \<open>0xD5\<close>, or its command byte is not
  \<open>cmd + 1\<close> (compared as \<open>int\<close>, as the code does), then \<open>pn532_read_response\<close> returns
  \<open>-1\<close>, whatever the buffer and its size.
\<close>

lemma read_response_wrong_echo:
  assumes "length payload \<le> 255"
    and "miso (snd (pn532_wait_ready l)) =
           on_wire (take 5 (chip_frame payload)) # on_wire (drop 5 (chip_frame payload)) # rs"
    and "payload ! 0 \<noteq> 0xd5 \<or> uint (payload ! 1) \<noteq> uint cmd + 1"
    and "length payload \<notin> set (tight l)"
  shows "map_sum id fst (pn532_read_response cmd resp len l) = Inr (- 1)"
proof -
  let ?n = "length payload"
  let ?c = "- foldl (+) 0 payload"
  obtain ready l1 where wr: "pn532_wait_ready l = (ready, l1)"
    by (cases "pn532_wait_ready l")
  with wait_ready_tight [of l] have t1: "tight l1 = tight l" by simp
  let ?l2 = "pn532_begin_read DATA_READ l1"
  let ?l3 = "emit (Spi_read 5 (on_wire (take 5 (chip_frame payload))))
               (?l2\<lparr>miso := [on_wire (drop 5 (chip_frame payload))] @ rs\<rparr>)"
  from assms(2) wr have m2: "miso ?l2 =
      on_wire (take 5 (chip_frame payload)) # ([on_wire (drop 5 (chip_frame payload))] @ rs)"
    by simp
  have pk: "pn532_peak_response_len ?l2 = (int ?n, ?l3)"
    by (rule peak_header [OF m2 assms(1)])
  have m3: "miso ?l3 = on_wire (payload @ [?c, 0]) # rs"
    by (simp add: drop5_chip_frame)
  have t3: "tight ?l3 = tight l"
    by (simp add: t1)
  have w: "word_of_int (int ?n) = (word_of_nat ?n :: u8)" by simp
  have u: "unat (word_of_nat ?n :: u8) = ?n"
    using assms(1) by (simp add: unat_of_nat_u8)
  have bad: "\<exists>ret data1 l4.
      pn532_read_data (uninit (nat (int ?n)) ?l3) (word_of_int (int ?n)) ?l3 = Inr (ret, data1, l4)
      \<and> (ret \<noteq> int ?n \<or> data1 ! 0 \<noteq> PN532_PN532TOHOST \<or> uint (data1 ! 1) \<noteq> uint cmd + 1)"
    if "2 \<le> ?n"
  proof (cases "?n \<le> 253")
    case True
    have "pn532_read_data (uninit (nat (int ?n)) ?l3) (word_of_nat ?n) ?l3 =
            Inr (uint (word_of_nat ?n :: u8),
                 take (length (uninit (nat (int ?n)) ?l3))
                   (payload @ [?c]
                    @ drop (unat (word_of_nat ?n :: u8) + 1) (uninit (nat (int ?n)) ?l3)),
                 emit (Spi_read (unat (word_of_nat ?n :: u8) + 2) (on_wire (payload @ [?c, 0])))
                   (?l3\<lparr>miso := rs\<rparr>))"
      using True assms(4) by (intro read_data_payload [OF m3]) (simp_all add: u t1)
    then obtain l4 where
      rd: "pn532_read_data (uninit (nat (int ?n)) ?l3) (word_of_int (int ?n)) ?l3 =
             Inr (int ?n, payload, l4)"
      unfolding w using assms(1) by (simp add: uint_of_nat_u8)
    from assms(3) have "payload ! 0 \<noteq> PN532_PN532TOHOST \<or> uint (payload ! 1) \<noteq> uint cmd + 1"
      by (simp add: PN532_PN532TOHOST_def)
    with rd show ?thesis by blast
  next
    case False
    then have "254 \<le> unat (word_of_nat ?n :: u8)" by (simp add: u)
    from read_data_too_long [OF this, of "uninit (nat (int ?n)) ?l3" ?l3]
    obtain data1 l4 where
      "pn532_read_data (uninit (nat (int ?n)) ?l3) (word_of_int (int ?n)) ?l3 =
         Inr (- 1, data1, l4)"
      unfolding w by (cases "pn532_read_data (uninit (nat (int ?n)) ?l3) (word_of_nat ?n) ?l3") auto
    then show ?thesis by fastforce
  qed
  show ?thesis
  proof (cases "ready \<and> 2 \<le> ?n")
    case True
    with bad obtain ret data1 l4 where
      rd: "pn532_read_data (uninit (nat (int ?n)) ?l3) (word_of_int (int ?n)) ?l3 =
             Inr (ret, data1, l4)"
      and b: "ret \<noteq> int ?n \<or> data1 ! 0 \<noteq> PN532_PN532TOHOST
        \<or> uint (data1 ! 1) \<noteq> uint cmd + 1" by blast
    from True have r: "ready" and n2: "\<not> int ?n < 0" "\<not> int ?n < 2" by simp_all
    show ?thesis
      unfolding pn532_read_response_def Let_def wr prod.case pk rd sum.case
      using r n2 b by simp
  next
    case False
    then show ?thesis
      unfolding pn532_read_response_def Let_def wr prod.case pk
      by (auto split: prod.splits)
  qed
qed

text \<open>
  With an object in use behind \<open>data\<close>, every valid frame of 2 to 253 payload bytes sent
  by a ready chip has its checksum byte stored in that object, before direction and echo
  are looked at.
\<close>

lemma read_response_tight:
  assumes "2 \<le> length payload" and "length payload \<le> 253"
    and "pn532_wait_ready l = (True, l1)"
    and "miso l1 =
           on_wire (take 5 (chip_frame payload)) # on_wire (drop 5 (chip_frame payload)) # rs"
    and "length payload \<in> set (tight l)"
  shows "pn532_read_response cmd resp len l = Inl Store_beyond_array"
proof -
  let ?n = "length payload"
  let ?c = "- foldl (+) 0 payload"
  from wait_ready_tight [of l] assms(3) have t1: "tight l1 = tight l" by simp
  let ?l2 = "pn532_begin_read DATA_READ l1"
  let ?l3 = "emit (Spi_read 5 (on_wire (take 5 (chip_frame payload))))
               (?l2\<lparr>miso := [on_wire (drop 5 (chip_frame payload))] @ rs\<rparr>)"
  have n255: "?n \<le> 255" using assms(2) by simp
  from assms(4) have m2: "miso ?l2 =
      on_wire (take 5 (chip_frame payload)) # ([on_wire (drop 5 (chip_frame payload))] @ rs)"
    by simp
  have pk: "pn532_peak_response_len ?l2 = (int ?n, ?l3)"
    by (rule peak_header [OF m2 n255])
  have m3: "miso ?l3 = on_wire (payload @ [?c, 0]) # rs"
    by (simp add: drop5_chip_frame)
  have t3: "tight ?l3 = tight l"
    by (simp add: t1)
  have w: "word_of_int (int ?n) = (word_of_nat ?n :: u8)" by simp
  have u: "unat (word_of_nat ?n :: u8) = ?n"
    using n255 by (rule unat_of_nat_u8)
  have "pn532_read_data (uninit (nat (int ?n)) ?l3) (word_of_nat ?n) ?l3 = Inl Store_beyond_array"
    using assms(2,5) by (intro read_data_tight [OF m3]) (simp_all add: u t1)
  then have rd: "pn532_read_data (uninit (nat (int ?n)) ?l3) (word_of_int (int ?n)) ?l3 =
      Inl Store_beyond_array"
    unfolding w .
  from assms(1) have n2: "\<not> int ?n < 0" "\<not> int ?n < 2" by simp_all
  show ?thesis
    unfolding pn532_read_response_def Let_def assms(3) prod.case pk rd sum.case
    using n2 by simp
qed



text \<open>
  The other way round: a ready chip that sends a valid frame with direction \<open>0xD5\<close>, the
  echo \<open>cmd + 1\<close> and a body of 1 to 251 bytes that fits the caller's buffer, in a
  build with the byte behind \<open>data\<close> unused, gets the length of the body as result and
  the body stored at the start of the buffer.
\<close>

lemma read_response_accepts:
  assumes "body \<noteq> []" and "length body \<le> 251" and "int (length body) \<le> uint len"
    and "cmd \<noteq> 0xff"
    and "pn532_wait_ready l = (True, l1)"
    and "miso l1 = on_wire (take 5 (chip_frame (0xd5 # (cmd + 1) # body)))
                   # on_wire (drop 5 (chip_frame (0xd5 # (cmd + 1) # body))) # rs"
    and "length body + 2 \<notin> set (tight l)"
  shows "map_sum id (\<lambda>(r, resp1, l2). (r, take (length body) resp1))
           (pn532_read_response cmd resp len l) = Inr (int (length body), body)"
proof -
  let ?p = "0xd5 # (cmd + 1) # body"
  let ?n = "length ?p"
  let ?c = "- foldl (+) 0 ?p"
  from wait_ready_tight [of l] assms(5) have t1: "tight l1 = tight l" by simp
  let ?l2 = "pn532_begin_read DATA_READ l1"
  let ?l3 = "emit (Spi_read 5 (on_wire (take 5 (chip_frame ?p))))
               (?l2\<lparr>miso := [on_wire (drop 5 (chip_frame ?p))] @ rs\<rparr>)"
  have n: "?n \<le> 253" "?n \<le> 255" using assms(2) by simp_all
  from assms(6) have m2: "miso ?l2 =
      on_wire (take 5 (chip_frame ?p)) # ([on_wire (drop 5 (chip_frame ?p))] @ rs)"
    by simp
  have pk: "pn532_peak_response_len ?l2 = (int ?n, ?l3)"
    by (rule peak_header [OF m2 n(2)])
  have m3: "miso ?l3 = on_wire (?p @ [?c, 0]) # rs"
    by (simp only: drop5_chip_frame emit_fields) simp
  have t3: "tight ?l3 = tight l"
    by (simp add: t1)
  have w: "word_of_int (int ?n) = (word_of_nat ?n :: u8)" by simp
  have u: "unat (word_of_nat ?n :: u8) = ?n"
    using n(2) by (rule unat_of_nat_u8)
  let ?l4 = "emit (Spi_read (?n + 2) (on_wire (?p @ [?c, 0]))) (?l3\<lparr>miso := rs\<rparr>)"
  have rd0: "pn532_read_data (uninit (nat (int ?n)) ?l3) (word_of_nat ?n) ?l3 =
          Inr (uint (word_of_nat ?n :: u8),
               take (length (uninit (nat (int ?n)) ?l3))
                 (?p @ [?c] @ drop (unat (word_of_nat ?n :: u8) + 1) (uninit (nat (int ?n)) ?l3)),
               emit (Spi_read (unat (word_of_nat ?n :: u8) + 2) (on_wire (?p @ [?c, 0])))
                 (?l3\<lparr>miso := rs\<rparr>))"
    using n(1) assms(7) by (intro read_data_payload [OF m3]) (simp_all only: u t3 nat_int, simp_all add: t1)
  have tk: "take (length (uninit (nat (int ?n)) ?l3))
              (?p @ [?c] @ drop (?n + 1) (uninit (nat (int ?n)) ?l3)) = ?p"
    by (simp only: length_uninit nat_int) simp
  have rd: "pn532_read_data (uninit (nat (int ?n)) ?l3) (word_of_int (int ?n)) ?l3 =
      Inr (int ?n, ?p, ?l4)"
    using rd0 unfolding w u uint_of_nat_u8 [OF n(2)] tk .
  have d0: "?p ! 0 = PN532_PN532TOHOST" by (simp add: PN532_PN532TOHOST_def)
  have "unat cmd < 256" using unsigned_less [of cmd] by simp
  moreover have "unat cmd \<noteq> 255"
  proof
    assume "unat cmd = 255"
    then have "word_of_nat (unat cmd) = (word_of_nat 255 :: u8)" by simp
    with assms(4) show False by simp
  qed
  ultimately have "unat cmd + unat (1 :: u8) < 2 ^ LENGTH(8)" by simp
  then have "unat (cmd + 1) = unat cmd + unat (1 :: u8)"
    by (rule unat_add_lem [THEN iffD1])
  then have "int (unat (cmd + 1)) = int (unat cmd) + 1" by simp
  then have "uint (cmd + 1) = uint cmd + 1" by (simp only: uint_nat)
  then have d1: "uint (?p ! 1) = uint cmd + 1" by simp
  have dl: "int ?n - 2 = int (length body)" by simp
  have nl: "nat (int (Suc (Suc (length body))) - 2) = length body" by simp
  have r: "pn532_read_response cmd resp len l =
        Inr (int (length body), memcpy resp (drop 2 ?p) (length body), pn532_end_read ?l4)"
    unfolding pn532_read_response_def Let_def assms(5) prod.case pk rd sum.case
    using assms(1,3) d0 d1 by (simp add: dl nl del: of_nat_Suc length_Cons)
  show ?thesis
    unfolding r by (simp add: memcpy_def)
qed

text \<open>
  Chip-select at the return of \<open>pn532_read_response\<close>: released, unless the chip was
  ready and the header peek gave less than 2 (an error or a short length).
\<close>

lemma do_read_nss [simp]: "nss (snd (snd (pn532_do_read data len l))) = nss l"
  by (simp add: pn532_do_read_def spi_read_blocking_def Let_def split: list.splits)

lemma peak_nss [simp]: "nss (snd (pn532_peak_response_len l)) = nss l"
proof -
  obtain r buf1 l1 where d: "pn532_do_read (uninit 5 l) 5 l = (r, buf1, l1)"
    by (metis prod_cases3)
  with do_read_nss [of "uninit 5 l" 5 l] have "nss l1 = nss l" by simp
  then show ?thesis
    unfolding pn532_peak_response_len_def Let_def d prod.case by simp
qed

lemma wait_ready_from_nss:
  "retry < 30 \<Longrightarrow> nss (snd (wait_ready_from retry l)) = True"
proof (induction "30 - retry" arbitrary: retry l)
  case 0
  then show ?case by simp
next
  case (Suc k)
  then have r: "retry < 30" and k: "k = 30 - Suc retry" by simp_all
  show ?case
  proof (cases "Suc retry < 30")
    case True
    from Suc.hyps(1) [OF k True] show ?thesis
      by (simp add: wait_ready_from_step [OF r])
  next
    case False
    then have "wait_ready_from (Suc retry) (idle_step (snd (status_poll l))) =
        (False, idle_step (snd (status_poll l)))"
      by (subst wait_ready_from.simps) simp
    then show ?thesis
      by (simp add: wait_ready_from_step [OF r])
  qed
qed

lemma wait_ready_nss [simp]: "nss (snd (pn532_wait_ready l)) = True"
  by (simp add: pn532_wait_ready_def wait_ready_from_nss)

lemma read_response_nss:
  assumes "pn532_read_response cmd resp len l = Inr (r, resp1, l')"
  shows "nss l' \<longleftrightarrow>
         \<not> (fst (pn532_wait_ready l)
            \<and> fst (pn532_peak_response_len
                     (pn532_begin_read DATA_READ (snd (pn532_wait_ready l)))) < 2)"
proof -
  obtain ready l1 where wr: "pn532_wait_ready l = (ready, l1)"
    by (cases "pn532_wait_ready l")
  with wait_ready_nss [of l] have n1: "nss l1" by simp
  obtain real_len l3 where
    pk: "pn532_peak_response_len (pn532_begin_read DATA_READ l1) = (real_len, l3)"
    by (cases "pn532_peak_response_len (pn532_begin_read DATA_READ l1)")
  with peak_nss [of "pn532_begin_read DATA_READ l1"] have n3: "\<not> nss l3" by simp
  from assms show ?thesis
    unfolding pn532_read_response_def Let_def wr prod.case fst_conv snd_conv pk
    using n1 n3 by (auto split: prod.splits sum.splits if_splits)
qed

lemma write_nss [simp]: "nss (snd (pn532_write data len l)) = True"
  by (simp add: pn532_write_def spi_write_blocking_def sleep_ms_rtos_def gpio_put_def Let_def)

lemma read_ack_nss [simp]: "nss (snd (read_ack l)) = True"
proof -
  obtain ready l1 where wr: "pn532_wait_ready l = (ready, l1)"
    by (cases "pn532_wait_ready l")
  with wait_ready_nss [of l] have "nss l1" by simp
  then show ?thesis
    unfolding read_ack_def Let_def wr prod.case
    by (simp split: prod.splits)
qed

lemma write_data_nss [simp]: "nss (snd (pn532_write_data data len l)) = True"
proof -
  obtain w l1 where
    wf: "write_frame (write_data_frame data len) (word_of_nat (7 + unat len)) l = (w, l1)"
    by (cases "write_frame (write_data_frame data len) (word_of_nat (7 + unat len)) l")
  obtain ack l2 where ra: "read_ack l1 = (ack, l2)"
    by (cases "read_ack l1")
  with read_ack_nss [of l1] have "nss l2" by simp
  then show ?thesis
    unfolding pn532_write_data_def Let_def wf prod.case ra by simp
qed

lemma write_command_nss [simp]: "nss (snd (pn532_write_command cmd param len l)) = True"
  by (simp add: pn532_write_command_def Let_def)

text \<open>
  C5.  On both early returns behind the header peek \<open>pn532_read_response\<close> comes back
  with chip-select still asserted: \<open>pn532_begin_read\<close> has pulled the pin low and
  \<open>pn532_end_read\<close> is not reached.  First a header with a wrong preamble, for which the
  peek gives \<open>-1\<close>; then the valid header of a frame with a payload of one byte, for
  which it gives the length 1.
\<close>

theorem read_response_keeps_chip_select:
  "fst (pn532_peak_response_len (pn532_begin_read DATA_READ (snd (pn532_wait_ready
          (idle_link\<lparr>miso := [on_wire [0x01], on_wire [0xff, 0, 0xff, 2, 0xfe]]\<rparr>))))) = - 1
   \<and> map_sum id (\<lambda>(r, resp1, l1). (r, nss l1))
       (pn532_read_response 0x4a (replicate 255 0) 255
          (idle_link\<lparr>miso := [on_wire [0x01], on_wire [0xff, 0, 0xff, 2, 0xfe]]\<rparr>))
       = Inr (- 1, False)
   \<and> fst (pn532_peak_response_len (pn532_begin_read DATA_READ (snd (pn532_wait_ready
          (idle_link\<lparr>miso := chip_sends (chip_frame [0xd5])\<rparr>))))) = 1
   \<and> map_sum id (\<lambda>(r, resp1, l1). (r, nss l1))
       (pn532_read_response 0x4a (replicate 255 0) 255
          (idle_link\<lparr>miso := chip_sends (chip_frame [0xd5])\<rparr>))
       = Inr (- 1, False)"
  by code_simp

theorem read_response_keeps_chip_select_witness:
  "nss (snd (snd (projr (pn532_read_response 0x4a (replicate 255 0) 255
          (idle_link\<lparr>miso := chip_sends (chip_frame [0xd5])\<rparr>))))) \<noteq> nss idle_link"
proof -
  from read_response_keeps_chip_select
  obtain resp1 l1 where
    "pn532_read_response 0x4a (replicate 255 0) 255
       (idle_link\<lparr>miso := chip_sends (chip_frame [0xd5])\<rparr>) = Inr (- 1, resp1, l1)"
    and "nss l1 = False"
    by (cases "pn532_read_response 0x4a (replicate 255 0) 255
          (idle_link\<lparr>miso := chip_sends (chip_frame [0xd5])\<rparr>)") auto
  then show ?thesis by (simp add: idle_link_def)
qed

text \<open>
  C1.  The chip acknowledges the command and answers with a valid frame whose payload is
  the direction byte and the command echo alone, a body of length 0.
  \<open>pn532_read_response\<close> turns a body of length 0 into \<open>-1\<close>, so the test \<open>== 0\<close> fails and
  both configuration functions return false (they return true on no input, by the two
  lemmas above on \<open>pn532_config_rf\<close> and \<open>pn532_config_sam\<close>).
\<close>

theorem config_rejects_empty_body:
  "map_sum id fst
     (pn532_config_rf (idle_link\<lparr>miso := chip_acks @ chip_sends (chip_frame [0xd5, 0x33])\<rparr>))
     = Inr False
   \<and> map_sum id fst
     (pn532_config_sam (idle_link\<lparr>miso := chip_acks @ chip_sends (chip_frame [0xd5, 0x15])\<rparr>))
     = Inr False"
  by code_simp

text \<open>
  With a response body of fewer than 4 bytes, or none, the version is 0; with the
  acknowledged command and the payload \<open>D5 03 32 01 06 07\<close> it is \<open>0x32010607\<close>, in a
  build with the byte behind \<open>data\<close> unused; with an object in use behind an array of 6
  bytes the same response has its checksum byte stored there.
\<close>

lemma firmware_ver_short:
  assumes "map_sum id fst
             (pn532_read_response 0x02 (uninit 4 (snd (pn532_write_command 0x02 [] 0 l))) 4
                (snd (pn532_write_command 0x02 [] 0 l))) = Inr r"
    and "r < 4"
  shows "map_sum id fst (pn532_firmware_ver l) = Inr 0"
  using assms write_command_not_negative [of "0x02" "[]" 0 l]
  by (auto simp: pn532_firmware_ver_def Let_def split: prod.splits sum.splits)

lemma firmware_ver_scenario:
  "map_sum id fst (pn532_firmware_ver
          (idle_link\<lparr>miso := chip_acks
              @ chip_sends (chip_frame [0xd5, 0x03, 0x32, 0x01, 0x06, 0x07])\<rparr>)) = Inr 0x32010607"
  by code_simp

lemma firmware_ver_store_beyond_data:
  "pn532_firmware_ver
     (idle_link\<lparr>tight := [6], miso := chip_acks
         @ chip_sends (chip_frame [0xd5, 0x03, 0x32, 0x01, 0x06, 0x07])\<rparr>)
   = Inl Store_beyond_array"
  by code_simp

text \<open>
  C9.  The command write fails: in place of the acknowledge frame the chip sends
  \<open>00 00 FF FF 00 00\<close>, and \<open>pn532_write_command\<close> returns 0.  The test \<open>ret < 0\<close> lets 0
  pass, the response that follows is read, and the version returned is \<open>0x32010607\<close>, not
  0.
\<close>

theorem firmware_ver_after_failed_write:
  "fst (pn532_write_command 0x02 [] 0
          (idle_link\<lparr>miso := [on_wire [0x01], on_wire [0, 0, 0xff, 0xff, 0, 0]]
              @ chip_sends (chip_frame [0xd5, 0x03, 0x32, 0x01, 0x06, 0x07])\<rparr>)) = 0
   \<and> map_sum id fst (pn532_firmware_ver
          (idle_link\<lparr>miso := [on_wire [0x01], on_wire [0, 0, 0xff, 0xff, 0, 0]]
              @ chip_sends (chip_frame [0xd5, 0x03, 0x32, 0x01, 0x06, 0x07])\<rparr>)) = Inr 0x32010607"
  by code_simp

subsection \<open>Tag sessions\<close>

text \<open>
  C10.  \<open>pn532_mifare_auth\<close> looks at \<open>readbuf[0]\<close> and not at the result of
  \<open>pn532_read_response\<close>: when the response read that follows the command returns \<open>-1\<close>
  and the first byte of \<open>readbuf\<close> was 0 before the call, the function returns true.
\<close>

theorem mifare_auth_stale:
  assumes "readbuf s ! 0 = 0"
    and "map_sum id fst
           (pn532_read_response 0x40 (readbuf s) 255
              (snd (pn532_write_command 0x40
                     [1, if key_id \<noteq> 0 then 0x61 else 0x60, block_id,
                      key ! 0, key ! 1, key ! 2, key ! 3, key ! 4, key ! 5,
                      uid ! 0, uid ! 1, uid ! 2, uid ! 3] 13 (io s)))) = Inr (- 1)"
  shows "map_sum id fst (pn532_mifare_auth uid block_id key_id key s) = Inr True"
proof -
  let ?param = "[1, if key_id \<noteq> 0 then 0x61 else 0x60, block_id,
                 key ! 0, key ! 1, key ! 2, key ! 3, key ! 4, key ! 5,
                 uid ! 0, uid ! 1, uid ! 2, uid ! 3]"
  obtain ret l1 where w: "pn532_write_command 0x40 ?param 13 (io s) = (ret, l1)"
    by (cases "pn532_write_command 0x40 ?param 13 (io s)")
  with write_command_not_negative [of "0x40" ?param 13 "io s"] have r: "\<not> ret < 0" by simp
  from assms(2) w obtain rb l2 where
    rr: "pn532_read_response 0x40 (readbuf s) 255 l1 = Inr (- 1, rb, l2)"
    by (cases "pn532_read_response 0x40 (readbuf s) 255 l1") auto
  from read_response_failure_keeps_resp [OF rr] have "rb = readbuf s" .
  with assms(1) have z: "rb ! 0 = 0" by simp
  show ?thesis
    unfolding pn532_mifare_auth_def Let_def w prod.case rr sum.case
    using r z by simp
qed

theorem mifare_auth_stale_witness:
  "readbuf fresh_driver ! 0 = 0
   \<and> map_sum id fst (pn532_read_response 0x40 (readbuf fresh_driver) 255
          (snd (pn532_write_command 0x40
                  [1, 0x60, 7, 0xff, 0xff, 0xff, 0xff, 0xff, 0xff, 1, 2, 3, 4] 13
                  (io fresh_driver)))) = Inr (- 1)
   \<and> map_sum id fst (pn532_mifare_auth [1, 2, 3, 4] 7 0 (replicate 6 0xff) fresh_driver)
       = Inr True"
proof -
  have z: "readbuf fresh_driver ! 0 = 0"
    by (simp add: fresh_driver_def)
  have f: "map_sum id fst (pn532_read_response 0x40 (readbuf fresh_driver) 255
          (snd (pn532_write_command 0x40
                  [1, 0x60, 7, 0xff, 0xff, 0xff, 0xff, 0xff, 0xff, 1, 2, 3, 4] 13
                  (io fresh_driver)))) = Inr (- 1)"
    by code_simp
  have k: "replicate 6 (0xff :: u8) = [0xff, 0xff, 0xff, 0xff, 0xff, 0xff]"
    by (simp add: numeral_eq_Suc)
  from mifare_auth_stale [of fresh_driver 0 7 "replicate 6 0xff" "[1, 2, 3, 4]"] z f
  show ?thesis by (simp add: k)
qed

text \<open>
  C6.  After a fresh poll that returned true, a poll from the cache returns true with the
  same three identifiers, and returns the driver as it found it: link, trace and pending
  replies included, so nothing went over the transport.
\<close>

theorem poll_felica_cached:
  assumes "map_sum id fst (pn532_poll_felica False s) = Inr True"
  shows "pn532_poll_felica True (snd (snd (projr (pn532_poll_felica False s)))) =
           Inr (True, fst (snd (projr (pn532_poll_felica False s))),
                snd (snd (projr (pn532_poll_felica False s))))
         \<and> fst (snd (projr (pn532_poll_felica False s))) \<noteq> None"
  using assms
  by (auto simp: pn532_poll_felica_def Let_def split: prod.splits sum.splits if_splits)

theorem poll_felica_cached_witness:
  "map_sum id fst (pn532_poll_felica False
          (fresh_driver\<lparr>io := idle_link\<lparr>miso := chip_acks @ chip_sends (chip_frame
             [0xd5, 0x4b, 1, 1, 20, 1, 1, 2, 3, 4, 5, 6, 7, 8,
              0x11, 0x12, 0x13, 0x14, 0x15, 0x16, 0x17, 0x18, 0x88, 0xb4])\<rparr>\<rparr>)) = Inr True
   \<and> map_sum id (\<lambda>(ok, ids, s). (ok, ids))
       (pn532_poll_felica True (snd (snd (projr (pn532_poll_felica False
          (fresh_driver\<lparr>io := idle_link\<lparr>miso := chip_acks @ chip_sends (chip_frame
             [0xd5, 0x4b, 1, 1, 20, 1, 1, 2, 3, 4, 5, 6, 7, 8,
              0x11, 0x12, 0x13, 0x14, 0x15, 0x16, 0x17, 0x18, 0x88, 0xb4])\<rparr>\<rparr>))))))
       = Inr (True, Some ([1, 2, 3, 4, 5, 6, 7, 8],
               [0x11, 0x12, 0x13, 0x14, 0x15, 0x16, 0x17, 0x18], [0x88, 0xb4]))"
proof -
  have h: "map_sum id fst (pn532_poll_felica False
          (fresh_driver\<lparr>io := idle_link\<lparr>miso := chip_acks @ chip_sends (chip_frame
             [0xd5, 0x4b, 1, 1, 20, 1, 1, 2, 3, 4, 5, 6, 7, 8,
              0x11, 0x12, 0x13, 0x14, 0x15, 0x16, 0x17, 0x18, 0x88, 0xb4])\<rparr>\<rparr>)) = Inr True"
    by code_simp
  have o: "fst (snd (projr (pn532_poll_felica False
          (fresh_driver\<lparr>io := idle_link\<lparr>miso := chip_acks @ chip_sends (chip_frame
             [0xd5, 0x4b, 1, 1, 20, 1, 1, 2, 3, 4, 5, 6, 7, 8,
              0x11, 0x12, 0x13, 0x14, 0x15, 0x16, 0x17, 0x18, 0x88, 0xb4])\<rparr>\<rparr>))))
       = Some ([1, 2, 3, 4, 5, 6, 7, 8],
               [0x11, 0x12, 0x13, 0x14, 0x15, 0x16, 0x17, 0x18], [0x88, 0xb4])"
    by code_simp
  from poll_felica_cached [OF h] h o show ?thesis by simp
qed

text \<open>
  Whenever \<open>pn532_felica_command\<close> returns, \<open>pn532_felica_read\<close> returns true, with 16
  zero bytes when the length is not 28 or one of the status bytes at offsets 9 and 10 is
  not 0, and with the 16 bytes from offset 12 otherwise; it never returns false.
\<close>

lemma felica_read_returns:
  assumes "pn532_felica_command 0x06
             [1, ucast (svc_code AND 0xff), ucast (drop_bit 8 svc_code),
              1, ucast (drop_bit 8 block_id), ucast (block_id AND 0xff)] 6 s = Inr (result, s1)"
  shows "pn532_felica_read svc_code block_id s =
           Inr (True,
                if result \<noteq> 28 \<or> readbuf s1 ! 9 \<noteq> 0 \<or> readbuf s1 ! 10 \<noteq> 0
                then replicate 16 0 else take 16 (drop 12 (readbuf s1)),
                s1)"
  using assms by (simp add: pn532_felica_read_def)

lemma felica_read_never_false:
  "pn532_felica_read svc_code block_id s \<noteq> Inr (False, d, s1)"
  by (auto simp: pn532_felica_read_def Let_def split: sum.splits prod.splits if_splits)

text \<open>
  Two runs from the start of the program: a response that carries one block (length byte
  29, response code, the 8 identifier bytes, both status bytes 0, one block, 16 bytes of
  data) gives the data; a response with a nonzero status byte and no block gives 16 zero
  bytes.  Both give true.
\<close>

lemma felica_read_scenarios:
  "map_sum id (\<lambda>(ok, block_data, s). (ok, block_data))
     (pn532_felica_read 0x000b 0
        (fresh_driver\<lparr>io := idle_link\<lparr>miso := chip_acks @ chip_sends (chip_frame
           ([0xd5, 0x41, 0x00, 29, 0x07, 1, 2, 3, 4, 5, 6, 7, 8, 0, 0, 1]
            @ [0xa0, 0xa1, 0xa2, 0xa3, 0xa4, 0xa5, 0xa6, 0xa7,
               0xa8, 0xa9, 0xaa, 0xab, 0xac, 0xad, 0xae, 0xaf]))\<rparr>\<rparr>))
   = Inr (True, [0xa0, 0xa1, 0xa2, 0xa3, 0xa4, 0xa5, 0xa6, 0xa7,
                 0xa8, 0xa9, 0xaa, 0xab, 0xac, 0xad, 0xae, 0xaf])
   \<and> map_sum id (\<lambda>(ok, block_data, s). (ok, block_data))
     (pn532_felica_read 0x000b 0
        (fresh_driver\<lparr>io := idle_link\<lparr>miso := chip_acks @ chip_sends (chip_frame
           [0xd5, 0x41, 0x00, 12, 0x07, 1, 2, 3, 4, 5, 6, 7, 8, 0xff, 0xa1])\<rparr>\<rparr>))
   = Inr (True, replicate 16 0)"
  by code_simp

text \<open>
  C7.  A path on which \<open>pn532_felica_read\<close> returns nothing.  \<open>readbuf[1]\<close> is 0 (here
  from the start of the program) and the chip answers the command with status 0 and no
  data, a body of one byte.  In \<open>pn532_felica_command\<close> \<open>outlen\<close> is \<open>-1\<close>, the status test
  passes, \<open>result - 2\<close> equals \<open>outlen\<close>, and \<open>memmove\<close> is called with the length \<open>-1\<close>.
\<close>

theorem felica_read_memmove_fault:
  "pn532_felica_read 0x000b 0
     (fresh_driver\<lparr>io := idle_link\<lparr>miso := chip_acks
         @ chip_sends (chip_frame [0xd5, 0x41, 0x00])\<rparr>\<rparr>)
   = Inl Memmove_beyond_array"
  by code_simp

theorem felica_read_memmove_fault_witness:
  "isl (pn532_felica_read 0x000b 0
     (fresh_driver\<lparr>io := idle_link\<lparr>miso := chip_acks
         @ chip_sends (chip_frame [0xd5, 0x41, 0x00])\<rparr>\<rparr>))"
  using felica_read_memmove_fault by simp

text \<open>
  Whenever \<open>pn532_felica_command\<close> returns, with a negative result or not,
  \<open>pn532_felica_write\<close> returns false; it never returns true.
\<close>

lemma felica_write_returns:
  assumes "pn532_felica_command 0x08
             ([1, ucast (svc_code AND 0xff), ucast (drop_bit 8 svc_code),
               1, ucast (drop_bit 8 block_id), ucast (block_id AND 0xff)] @ take 16 block_data)
             22 s = Inr (result, s1)"
  shows "pn532_felica_write svc_code block_id block_data s =
           Inr (False,
                if result < 0 then s1
                else s1\<lparr>io := foldl (\<lambda>l b. emit (Printf_hex b) l) (io s1)
                                  (take (nat result) (readbuf s1))\<rparr>)"
  using assms by (simp add: pn532_felica_write_def)

lemma felica_write_never_true:
  "pn532_felica_write svc_code block_id block_data s \<noteq> Inr (True, s1)"
  by (auto simp: pn532_felica_write_def Let_def split: sum.splits prod.splits if_splits)

text \<open>
  A run in which the exchange succeeds: the tag's answer to the write (length byte 12,
  response code, identifier, both status bytes 0) makes \<open>pn532_felica_command\<close> return
  11, and \<open>pn532_felica_write\<close> returns false all the same.
\<close>

lemma felica_write_after_success:
  "map_sum id fst
     (pn532_felica_command 0x08 ([1, 0x09, 0, 1, 0, 0] @ replicate 16 0xa5) 22
        (fresh_driver\<lparr>io := idle_link\<lparr>miso := chip_acks @ chip_sends (chip_frame
           [0xd5, 0x41, 0x00, 12, 0x09, 1, 2, 3, 4, 5, 6, 7, 8, 0, 0])\<rparr>\<rparr>))
   = Inr 11
   \<and> map_sum id fst
     (pn532_felica_write 0x0009 0 (replicate 16 0xa5)
        (fresh_driver\<lparr>io := idle_link\<lparr>miso := chip_acks @ chip_sends (chip_frame
           [0xd5, 0x41, 0x00, 12, 0x09, 1, 2, 3, 4, 5, 6, 7, 8, 0, 0])\<rparr>\<rparr>))
   = Inr False"
  by code_simp

text \<open>
  C8.  A chip response for which \<open>pn532_felica_write\<close> returns nothing.  \<open>readbuf[1]\<close>
  is 0 and the chip answers the command with status 0 and no data; in
  \<open>pn532_felica_command\<close> the call of \<open>memmove\<close> with the length \<open>-1\<close> comes before any
  return.
\<close>

theorem felica_write_memmove_fault:
  "pn532_felica_write 0x0009 0 (replicate 16 0xa5)
     (fresh_driver\<lparr>io := idle_link\<lparr>miso := chip_acks
         @ chip_sends (chip_frame [0xd5, 0x41, 0x00])\<rparr>\<rparr>)
   = Inl Memmove_beyond_array"
  by code_simp

end
